theory Spec2Isabelle
  imports Main "HOL-Library.Char_ord" "HOL-Library.List_Lexorder" "HOL-Library.Product_Lexorder"
    "HOL-Library.Multiset"
begin

section \<open>ignoregrets: the snapshot and restore engine\<close>

text \<open>
  A shallow embedding of the Go packages \<^verbatim>\<open>internal/snapshot\<close> (file filter, archive
  codec, snapshot selector, restore engine) and \<^verbatim>\<open>cmd\<close> (prune, inspect, status).
  Go strings are byte strings, modelled as \<^typ>\<open>string\<close>; the order on them is the
  bytewise lexicographic order that Go's \<^verbatim>\<open>sort.Strings\<close> and \<^verbatim>\<open><\<close> use.
\<close>

subsection \<open>Errors\<close>

text \<open>One constructor for each \<^verbatim>\<open>fmt.Errorf\<close> of the modelled functions.\<close>

datatype error =
    ErrBadPattern
  | ListSnapshotsFailed
  | NoSnapshotsFound string
  | SnapshotIndexNotFound int string
  | OpenSnapshotFailed
  | GzipReaderFailed
  | TarHeaderFailed
  | ManifestReadFailed
  | ManifestParseFailed
  | ManifestNotFound
  | CommitHashMismatch string string
  | CreateDirectoryFailed string
  | CreateFileFailed string
  | WriteFileFailed string
  | OpenFileFailed string
  | MarshalManifestFailed
  | RetentionInvalid
  | DeleteSnapshotFailed string
  | GitFailed
  | NoFilesToSnapshot
  | CreateSnapshotFileFailed

text \<open>
  A Go function returns a value, returns an error, or panics at run time (an index
  out of range aborts the process; it is not an error value).
\<close>

datatype 'a outcome = Ok 'a | Err error | Panic

subsection \<open>Configuration\<close>

record Config =
  Retention :: int
  SnapshotOn :: "string list"
  RestoreOn :: "string list"
  HooksEnabled :: bool
  Exclude :: "string list"
  Include :: "string list"

subsection \<open>Standard library: \<^verbatim>\<open>path/filepath\<close>\<close>

text \<open>
  \<^verbatim>\<open>filepath.Match(pattern, name)\<close> returns \<^verbatim>\<open>(matched, err)\<close>. It belongs to the Go
  standard library, so the functions that call it take it as a parameter:
  \<open>Inl e\<close> is a non-nil error, \<open>Inr b\<close> is \<^verbatim>\<open>(b, nil)\<close>.
\<close>

type_synonym matcher = "string \<Rightarrow> string \<Rightarrow> error + bool"

text \<open>
  \<^verbatim>\<open>filepath.Base\<close> with separator \<^verbatim>\<open>/\<close>: the empty path gives \<^verbatim>\<open>.\<close>, trailing
  separators are stripped, the last element is returned, and a path of separators
  only gives \<^verbatim>\<open>/\<close>.
\<close>

definition filepath_Base :: "string \<Rightarrow> string" where
  "filepath_Base path =
     (if path = [] then ''.''
      else let p = rev (dropWhile (\<lambda>c. c = CHR ''/'') (rev path));
               e = rev (takeWhile (\<lambda>c. c \<noteq> CHR ''/'') (rev p))
           in if e = [] then ''/'' else e)"

text \<open>
  A concrete matcher for the examples: the fragment of the pattern syntax made of
  literal bytes, \<^verbatim>\<open>?\<close> (one byte other than the separator) and \<^verbatim>\<open>*\<close> (any run of
  bytes other than the separator). No pattern of this fragment is malformed.
\<close>

fun star_match :: "string \<Rightarrow> string \<Rightarrow> bool" where
  "star_match [] n = (n = [])"
| "star_match (c # p) [] = (c = CHR ''*'' \<and> star_match p [])"
| "star_match (c # p) (x # n) =
     (if c = CHR ''*'' then star_match p (x # n) \<or> (x \<noteq> CHR ''/'' \<and> star_match (c # p) n)
      else if c = CHR ''?'' then x \<noteq> CHR ''/'' \<and> star_match p n
      else c = x \<and> star_match p n)"

definition Match_fragment :: matcher where
  "Match_fragment pattern name = Inr (star_match pattern name)"

subsection \<open>File filter\<close>

text \<open>
  \<^verbatim>\<open>filterFiles\<close> collects paths in a \<^verbatim>\<open>map[string]bool\<close> whose values are all
  \<^verbatim>\<open>true\<close>. The map is modelled by the list of its keys in insertion order;
  \<open>map_store\<close> is the assignment \<^verbatim>\<open>included[file] = true\<close>. Go iterates over a map
  in an unspecified order, so the result slice is some permutation of the keys; the
  model returns them in insertion order, and the theorems speak of the set of
  elements and of distinctness only.
\<close>

definition map_store :: "string \<Rightarrow> string list \<Rightarrow> string list" where
  "map_store k m = (if k \<in> set m then m else m @ [k])"

text \<open>The inner loop over \<^verbatim>\<open>cfg.Exclude\<close>, which breaks at the first match.\<close>

fun excluded :: "matcher \<Rightarrow> string list \<Rightarrow> string \<Rightarrow> bool" where
  "excluded mtch [] file = False"
| "excluded mtch (pattern # ps) file =
     (if mtch pattern (filepath_Base file) = Inr True then True else excluded mtch ps file)"

text \<open>First loop: every file matching no exclude pattern is stored.\<close>

fun add_not_excluded :: "matcher \<Rightarrow> string list \<Rightarrow> string list \<Rightarrow> string list \<Rightarrow> string list" where
  "add_not_excluded mtch ex [] included = included"
| "add_not_excluded mtch ex (file # files) included =
     add_not_excluded mtch ex files
       (if \<not> excluded mtch ex file then map_store file included else included)"

text \<open>Second loop, inner part: for one include pattern, every matching file is stored.\<close>

fun add_matching :: "matcher \<Rightarrow> string \<Rightarrow> string list \<Rightarrow> string list \<Rightarrow> string list" where
  "add_matching mtch pattern [] included = included"
| "add_matching mtch pattern (file # files) included =
     add_matching mtch pattern files
       (if mtch pattern (filepath_Base file) = Inr True then map_store file included else included)"

fun add_included :: "matcher \<Rightarrow> string list \<Rightarrow> string list \<Rightarrow> string list \<Rightarrow> string list" where
  "add_included mtch [] files included = included"
| "add_included mtch (pattern # ps) files included =
     add_included mtch ps files (add_matching mtch pattern files included)"

definition filterFiles :: "matcher \<Rightarrow> string list \<Rightarrow> 'a Config_scheme \<Rightarrow> string list" where
  "filterFiles mtch files cfg =
     add_included mtch (Include cfg) files (add_not_excluded mtch (Exclude cfg) files [])"

text \<open>A file matches a pattern list when some pattern matches its base name without error.\<close>

definition matches_any :: "matcher \<Rightarrow> string list \<Rightarrow> string \<Rightarrow> bool" where
  "matches_any mtch ps file = (\<exists>p \<in> set ps. mtch p (filepath_Base file) = Inr True)"

subsection \<open>Archives and the snapshots directory\<close>

text \<open>
  One entry of a tar stream: the header's name and mode, and the body. \<open>Body = None\<close>
  is a body that cannot be read (a truncated or corrupt stream): reading it fails, and
  so does advancing past it.
\<close>

record entry =
  Name :: string
  Mode :: int
  Body :: "string option"

text \<open>
  The bytes of a snapshot file, as the readers see them: \<open>NotGzip\<close> makes
  \<^verbatim>\<open>gzip.NewReader\<close> fail; \<open>Tar es eof\<close> is a stream of the entries \<open>es\<close> after which
  \<^verbatim>\<open>tr.Next()\<close> returns \<^verbatim>\<open>io.EOF\<close> when \<open>eof\<close> holds and another error otherwise.
\<close>

datatype archive = NotGzip | Tar "entry list" bool

datatype node = Directory | File archive

text \<open>
  The directory \<^verbatim>\<open>.ignoregrets/snapshots\<close>: the names in it, each a subdirectory or a
  file. Names in a directory are distinct; the theorems that need it assume it.
\<close>

type_synonym snapdir = "(string \<times> node) list"

definition snapshot_path :: "string \<Rightarrow> string" where
  "snapshot_path name = ''.ignoregrets/snapshots/'' @ name"

text \<open>
  \<^verbatim>\<open>filepath.Glob\<close> on a pattern whose directory part is the snapshots directory and
  whose last element is \<open>pattern\<close>. The library first checks the pattern against the
  empty name and returns no match on an error; then it reads the names of the
  directory, sorts them in ascending order and tests each one in turn, appending each
  match joined to the directory; a matcher error ends the loop and is returned with
  the matches found so far.
\<close>

fun glob_loop :: "matcher \<Rightarrow> string \<Rightarrow> string list \<Rightarrow> string list \<Rightarrow> string list \<times> error option" where
  "glob_loop mtch pattern [] m = (m, None)"
| "glob_loop mtch pattern (n # ns) m =
     (case mtch pattern n of
        Inl e \<Rightarrow> (m, Some e)
      | Inr matched \<Rightarrow> glob_loop mtch pattern ns (if matched then m @ [snapshot_path n] else m))"

definition Glob :: "matcher \<Rightarrow> snapdir \<Rightarrow> string \<Rightarrow> string list \<times> error option" where
  "Glob mtch sd pattern =
     (case mtch pattern [] of
        Inl e \<Rightarrow> ([], Some e)
      | Inr b \<Rightarrow> glob_loop mtch pattern (sort (map fst sd)) [])"

text \<open>The pattern \<^verbatim>\<open>fmt.Sprintf("%s_*.tar.gz", commit)\<close>.\<close>

definition commit_pattern :: "string \<Rightarrow> string" where
  "commit_pattern commit = commit @ ''_*.tar.gz''"

subsection \<open>Snapshot selector\<close>

text \<open>
  \<^verbatim>\<open>findSnapshot\<close> indexes the slice returned by \<^verbatim>\<open>filepath.Glob\<close> as it is. The only
  bound it checks is \<^verbatim>\<open>index >= len(matches)\<close>; a negative index reaches
  \<^verbatim>\<open>matches[index]\<close>, which panics.
\<close>

definition findSnapshot :: "matcher \<Rightarrow> snapdir \<Rightarrow> string \<Rightarrow> int \<Rightarrow> string outcome" where
  "findSnapshot mtch sd commit index =
     (case Glob mtch sd (commit_pattern commit) of
        (matches, Some e) \<Rightarrow> Err ListSnapshotsFailed
      | (matches, None) \<Rightarrow>
          if length matches = 0 then Err (NoSnapshotsFound commit)
          else if index \<ge> int (length matches) then Err (SnapshotIndexNotFound index commit)
          else if index < 0 then Panic
          else Ok (matches ! nat index))"

text \<open>\<^verbatim>\<open>sort.Sort(sort.Reverse(sort.StringSlice(xs)))\<close>: descending order.\<close>

definition sort_descending :: "string list \<Rightarrow> string list" where
  "sort_descending xs = rev (sort xs)"

text \<open>
  The selection of \<^verbatim>\<open>inspectCmd\<close>, up to the path it opens: the matches are sorted in
  descending order before \<^verbatim>\<open>matches[snapIndex]\<close> is read, with the same single bound
  check.
\<close>

definition inspect_select :: "matcher \<Rightarrow> snapdir \<Rightarrow> string \<Rightarrow> int \<Rightarrow> string outcome" where
  "inspect_select mtch sd commitHash snapIndex =
     (case Glob mtch sd (commit_pattern commitHash) of
        (matches, Some e) \<Rightarrow> Err ListSnapshotsFailed
      | (matches, None) \<Rightarrow>
          if length matches = 0 then Err (NoSnapshotsFound commitHash)
          else let sorted = sort_descending matches in
            if snapIndex \<ge> int (length sorted) then Err (SnapshotIndexNotFound snapIndex commitHash)
            else if snapIndex < 0 then Panic
            else Ok (sorted ! nat snapIndex))"

text \<open>
  The selection of \<^verbatim>\<open>findLatestSnapshot\<close> (the status command), up to the path it
  opens: descending sort, then \<^verbatim>\<open>matches[0]\<close>. A matcher error is returned as it is.
\<close>

definition findLatestSnapshot_select :: "matcher \<Rightarrow> snapdir \<Rightarrow> string \<Rightarrow> string outcome" where
  "findLatestSnapshot_select mtch sd commit =
     (case Glob mtch sd (commit_pattern commit) of
        (matches, Some e) \<Rightarrow> Err e
      | (matches, None) \<Rightarrow>
          if length matches = 0 then Err (NoSnapshotsFound commit)
          else (case sort_descending matches of [] \<Rightarrow> Panic | m # ms \<Rightarrow> Ok m))"

subsection \<open>Snapshot file names\<close>

text \<open>
  The creation time, to the precision the file name keeps (\<^verbatim>\<open>time.Now().UTC()\<close> is
  never before year 0).
\<close>

record timestamp =
  Year :: nat
  Month :: nat
  Day :: nat
  Hour :: nat
  Minute :: nat

definition digit_char :: "nat \<Rightarrow> char" where
  "digit_char d = char_of (48 + d)"

fun decimal :: "nat \<Rightarrow> string" where
  "decimal n = (if n < 10 then [digit_char n] else decimal (n div 10) @ [digit_char (n mod 10)])"

declare decimal.simps [simp del]

text \<open>A number in decimal, padded with zeros on the left to at least \<open>w\<close> digits.\<close>

definition zero_padded :: "nat \<Rightarrow> nat \<Rightarrow> string" where
  "zero_padded w n = replicate (w - length (decimal n)) (CHR ''0'') @ decimal n"

text \<open>\<^verbatim>\<open>Timestamp.Format("20060102T1504")\<close>.\<close>

definition Format :: "timestamp \<Rightarrow> string" where
  "Format t = zero_padded 4 (Year t) @ zero_padded 2 (Month t) @ zero_padded 2 (Day t)
              @ ''T'' @ zero_padded 2 (Hour t) @ zero_padded 2 (Minute t)"

text \<open>The verb \<^verbatim>\<open>%d\<close> of \<^verbatim>\<open>fmt.Sprintf\<close>: decimal, no padding, a minus sign if negative.\<close>

definition Sprintf_d :: "int \<Rightarrow> string" where
  "Sprintf_d i = (if i < 0 then CHR ''-'' # decimal (nat (- i)) else decimal (nat i))"

text \<open>The file name \<^verbatim>\<open>fmt.Sprintf("%s_%s_%d.tar.gz", commit, timestamp, index)\<close>.\<close>

definition snapshot_name :: "string \<Rightarrow> timestamp \<Rightarrow> int \<Rightarrow> string" where
  "snapshot_name commit t index = commit @ ''_'' @ Format t @ ''_'' @ Sprintf_d index @ ''.tar.gz''"

text \<open>Chronological order of creation times, then the order of \<open>(timestamp, index)\<close> keys.\<close>

definition time_key :: "timestamp \<Rightarrow> nat \<times> nat \<times> nat \<times> nat \<times> nat" where
  "time_key t = (Year t, Month t, Day t, Hour t, Minute t)"

definition key_less :: "timestamp \<times> int \<Rightarrow> timestamp \<times> int \<Rightarrow> bool" where
  "key_less a b = (time_key (fst a) < time_key (fst b)
                   \<or> (time_key (fst a) = time_key (fst b) \<and> snd a < snd b))"

subsection \<open>Manifest and archive codec\<close>

record Manifest =
  CommitHash :: string
  Timestamp :: timestamp
  Index :: int
  Files :: "string \<rightharpoonup> string"
  ManifestConfig :: Config

text \<open>
  The working tree: the regular files with their content, the directories, and the
  mode bits \<^verbatim>\<open>Stat\<close> reports for a path. The current directory \<^verbatim>\<open>.\<close> and the root
  always exist.
\<close>

record tree =
  contents :: "string \<rightharpoonup> string"
  directories :: "string set"
  perm :: "string \<Rightarrow> int"

text \<open>
  \<^verbatim>\<open>addFileToArchive\<close>: the file is opened and read (a path that is not a readable
  regular file makes one of the four error returns fire), its header and bytes are
  appended to the tar writer, and the hex digest of the same bytes is stored in the
  manifest under the path. The state is the tar writer's entries and the manifest.
  The digest \<^verbatim>\<open>hex.EncodeToString(sha256.Sum)\<close> is a parameter.
\<close>

definition addFileToArchive ::
    "(string \<Rightarrow> string) \<Rightarrow> tree \<Rightarrow> string \<Rightarrow> entry list \<times> Manifest \<Rightarrow> error + entry list \<times> Manifest" where
  "addFileToArchive sha256_hex t path st =
     (case contents t path of
        None \<Rightarrow> Inl (OpenFileFailed path)
      | Some data \<Rightarrow>
          Inr (fst st @ [\<lparr>Name = path, Mode = perm t path, Body = Some data\<rparr>],
               (snd st)\<lparr>Files := (Files (snd st))(path \<mapsto> sha256_hex data)\<rparr>))"

text \<open>
  The loop of \<^verbatim>\<open>CreateSnapshot\<close> over the filtered files; on an error it stops, and
  the entries written so far stay in the archive.
\<close>

fun add_files ::
    "(string \<Rightarrow> string) \<Rightarrow> tree \<Rightarrow> string list \<Rightarrow> entry list \<times> Manifest \<Rightarrow> error option \<times> entry list \<times> Manifest" where
  "add_files sha256_hex t [] st = (None, st)"
| "add_files sha256_hex t (path # ps) st =
     (case addFileToArchive sha256_hex t path st of
        Inl e \<Rightarrow> (Some e, st)
      | Inr st' \<Rightarrow> add_files sha256_hex t ps st')"

text \<open>
  The write path: all files, then the manifest, serialised by \<^verbatim>\<open>json.Marshal\<close> (a
  parameter; \<open>None\<close> is its error), as a last entry named \<^verbatim>\<open>manifest.json\<close> with mode
  \<^verbatim>\<open>0644\<close>. The result is the entries of the archive and the error, if any.
\<close>

definition write_archive ::
    "(string \<Rightarrow> string) \<Rightarrow> (Manifest \<Rightarrow> string option) \<Rightarrow> tree \<Rightarrow> string list \<Rightarrow> Manifest
       \<Rightarrow> error option \<times> entry list" where
  "write_archive sha256_hex marshal t paths manifest0 =
     (case add_files sha256_hex t paths ([], manifest0) of
        (Some e, tw, manifest) \<Rightarrow> (Some e, tw)
      | (None, tw, manifest) \<Rightarrow>
          (case marshal manifest of
             None \<Rightarrow> (Some MarshalManifestFailed, tw)
           | Some manifestData \<Rightarrow>
               (None, tw @ [\<lparr>Name = ''manifest.json'', Mode = 420, Body = Some manifestData\<rparr>])))"

text \<open>
  \<^verbatim>\<open>ReadManifest\<close>: the entries are scanned in order and the first one named
  \<^verbatim>\<open>manifest.json\<close> is read and decoded by \<^verbatim>\<open>json.Unmarshal\<close> (a parameter; \<open>None\<close> is
  its error).
\<close>

fun scan_manifest :: "(string \<Rightarrow> Manifest option) \<Rightarrow> entry list \<Rightarrow> bool \<Rightarrow> error + Manifest" where
  "scan_manifest unmarshal [] eof = (if eof then Inl ManifestNotFound else Inl TarHeaderFailed)"
| "scan_manifest unmarshal (hdr # es) eof =
     (if Name hdr = ''manifest.json'' then
        (case Body hdr of
           None \<Rightarrow> Inl ManifestReadFailed
         | Some data \<Rightarrow>
             (case unmarshal data of
                None \<Rightarrow> Inl ManifestParseFailed
              | Some manifest \<Rightarrow> Inr manifest))
      else if Body hdr = None then Inl TarHeaderFailed
      else scan_manifest unmarshal es eof)"

definition ReadManifest :: "(string \<Rightarrow> Manifest option) \<Rightarrow> archive \<Rightarrow> error + Manifest" where
  "ReadManifest unmarshal file =
     (case file of NotGzip \<Rightarrow> Inl GzipReaderFailed | Tar es eof \<Rightarrow> scan_manifest unmarshal es eof)"

text \<open>\<^verbatim>\<open>readManifestFromSnapshot\<close> is a second copy of the same function in the source.\<close>

definition readManifestFromSnapshot :: "(string \<Rightarrow> Manifest option) \<Rightarrow> archive \<Rightarrow> error + Manifest" where
  "readManifestFromSnapshot unmarshal file =
     (case file of NotGzip \<Rightarrow> Inl GzipReaderFailed | Tar es eof \<Rightarrow> scan_manifest unmarshal es eof)"

subsection \<open>Snapshot writer\<close>

text \<open>\<^verbatim>\<open>getNextIndex\<close>: the number of matches of the commit's pattern; the error is dropped.\<close>

definition getNextIndex :: "matcher \<Rightarrow> snapdir \<Rightarrow> string \<Rightarrow> int" where
  "getNextIndex mtch sd commit = int (length (fst (Glob mtch sd (commit_pattern commit))))"

text \<open>\<^verbatim>\<open>os.Create\<close> in the snapshots directory, and the bytes the file holds once the writers are closed.\<close>

definition os_Create :: "snapdir \<Rightarrow> string \<Rightarrow> snapdir option" where
  "os_Create sd name =
     (if (name, Directory) \<in> set sd then None
      else Some ((name, File (Tar [] True)) # filter (\<lambda>(n, x). n \<noteq> name) sd))"

definition close_file :: "string \<Rightarrow> archive \<Rightarrow> snapdir \<Rightarrow> snapdir" where
  "close_file name a sd = map (\<lambda>(n, x). if n = name then (n, File a) else (n, x)) sd"

text \<open>
  \<^verbatim>\<open>CreateSnapshot\<close>. The results of the two git commands and the current time are
  inputs. When the write path fails, the file stays on disk with the entries written
  before the error.
\<close>

definition CreateSnapshot ::
    "matcher \<Rightarrow> (string \<Rightarrow> string) \<Rightarrow> (Manifest \<Rightarrow> string option) \<Rightarrow> error + string \<Rightarrow> error + string list
       \<Rightarrow> timestamp \<Rightarrow> Config \<Rightarrow> tree \<Rightarrow> snapdir \<Rightarrow> error option \<times> snapdir" where
  "CreateSnapshot mtch sha256_hex marshal GetCurrentCommit GetIgnoredFiles now cfg t sd =
     (case GetCurrentCommit of
        Inl e \<Rightarrow> (Some e, sd)
      | Inr commit \<Rightarrow>
          (case GetIgnoredFiles of
             Inl e \<Rightarrow> (Some e, sd)
           | Inr candidates \<Rightarrow>
               let paths = filterFiles mtch candidates cfg in
               if length paths = 0 then (Some NoFilesToSnapshot, sd)
               else
                 let manifest = \<lparr>CommitHash = commit, Timestamp = now,
                                 Index = getNextIndex mtch sd commit, Files = Map.empty,
                                 ManifestConfig = cfg\<rparr>;
                     name = snapshot_name commit (Timestamp manifest) (Index manifest)
                 in (case os_Create sd name of
                       None \<Rightarrow> (Some CreateSnapshotFileFailed, sd)
                     | Some sd1 \<Rightarrow>
                         (case write_archive sha256_hex marshal t paths manifest of
                            (r, tw) \<Rightarrow> (r, close_file name (Tar tw True) sd1)))))"

subsection \<open>Standard library: strings, paths and the file system\<close>

text \<open>\<^verbatim>\<open>strings.Split\<close> with a one-byte separator, and \<^verbatim>\<open>strings.HasSuffix\<close>.\<close>

fun strings_Split :: "string \<Rightarrow> char \<Rightarrow> string list" where
  "strings_Split [] sep = [] # []"
| "strings_Split (c # cs) sep =
     (if c = sep then [] # strings_Split cs sep
      else (case strings_Split cs sep of [] \<Rightarrow> [c] # [] | p # ps \<Rightarrow> (c # p) # ps))"

definition strings_HasSuffix :: "string \<Rightarrow> string \<Rightarrow> bool" where
  "strings_HasSuffix s suffix =
     (length suffix \<le> length s \<and> drop (length s - length suffix) s = suffix)"

fun join_slash :: "string list \<Rightarrow> string" where
  "join_slash [] = []"
| "join_slash [e] = e"
| "join_slash (e # es) = e @ CHR ''/'' # join_slash es"

text \<open>
  \<^verbatim>\<open>filepath.Clean\<close> with separator \<^verbatim>\<open>/\<close>: empty and \<^verbatim>\<open>.\<close> elements are dropped, a
  \<^verbatim>\<open>..\<close> removes the element before it (at the root it is dropped, at the start of a
  relative path it stays), and the empty result is \<^verbatim>\<open>.\<close>. \<open>out\<close> holds the elements
  kept so far, last first.
\<close>

definition clean_step :: "bool \<Rightarrow> string list \<Rightarrow> string \<Rightarrow> string list" where
  "clean_step rooted out e =
     (if e = [] \<or> e = ''.'' then out
      else if e = ''..'' then
        (case out of
           [] \<Rightarrow> (if rooted then [] else [''..''])
         | x # rest \<Rightarrow> (if x = ''..'' then e # out else rest))
      else e # out)"

definition filepath_Clean :: "string \<Rightarrow> string" where
  "filepath_Clean path =
     (let rooted = (take 1 path = ''/'');
          body = join_slash (rev (foldl (clean_step rooted) [] (strings_Split path (CHR ''/''))))
      in if rooted then CHR ''/'' # body else if body = [] then ''.'' else body)"

text \<open>\<^verbatim>\<open>filepath.Dir\<close>: the path up to its last separator, cleaned.\<close>

definition filepath_Dir :: "string \<Rightarrow> string" where
  "filepath_Dir path = filepath_Clean (rev (dropWhile (\<lambda>c. c \<noteq> CHR ''/'') (rev path)))"

definition is_dir :: "tree \<Rightarrow> string \<Rightarrow> bool" where
  "is_dir t p = (p = ''.'' \<or> p = ''/'' \<or> p \<in> directories t)"

text \<open>\<^verbatim>\<open>os.Stat(p)\<close> returns no error: the path is a file or a directory.\<close>

definition os_Stat :: "tree \<Rightarrow> string \<Rightarrow> bool" where
  "os_Stat t p = (p \<in> dom (contents t) \<or> is_dir t p)"

text \<open>
  The directories on the way to \<open>d\<close>: each proper prefix of \<open>d\<close> that ends before a
  separator, shortest first. \<open>acc\<close> is the part of the path already read.
\<close>

fun dir_prefixes :: "string \<Rightarrow> string \<Rightarrow> string list" where
  "dir_prefixes acc [] = []"
| "dir_prefixes acc (c # cs) =
     (if c = CHR ''/'' \<and> acc \<noteq> [] then acc # dir_prefixes (acc @ [c]) cs
      else dir_prefixes (acc @ [c]) cs)"

definition mkdir_targets :: "string \<Rightarrow> string list" where
  "mkdir_targets d = dir_prefixes [] d @ [d]"

text \<open>Walking down the targets: a regular file in the way is an error, a missing directory is made.\<close>

fun mkdir_chain :: "string list \<Rightarrow> tree \<Rightarrow> tree option" where
  "mkdir_chain [] t = Some t"
| "mkdir_chain (d # ds) t =
     (if d \<in> dom (contents t) then None
      else mkdir_chain ds (if is_dir t d then t else t\<lparr>directories := insert d (directories t)\<rparr>))"

text \<open>
  \<^verbatim>\<open>os.MkdirAll(d, 0755)\<close>: nothing to do for an existing directory, an error for an
  existing file; otherwise the missing directories on the way to \<open>d\<close> and \<open>d\<close> itself
  are made. \<open>None\<close> is the error; nothing is made in that case, since the file in the
  way lies above every missing directory.
\<close>

definition os_MkdirAll :: "string \<Rightarrow> tree \<Rightarrow> tree option" where
  "os_MkdirAll d t =
     (if is_dir t d then Some t
      else if d \<in> dom (contents t) then None
      else mkdir_chain (mkdir_targets d) t)"

text \<open>
  \<^verbatim>\<open>os.OpenFile(p, O_WRONLY|O_CREATE|O_TRUNC, mode)\<close>: an error for a directory, for the
  empty path and for a path ending in a separator; otherwise the file exists
  afterwards and is empty. The mode bits are not tracked beyond \<open>perm\<close>, which the
  call leaves alone for an existing file.
\<close>

definition os_OpenFile :: "string \<Rightarrow> int \<Rightarrow> tree \<Rightarrow> tree option" where
  "os_OpenFile p m t =
     (if p = [] \<or> last p = CHR ''/'' \<or> is_dir t p then None
      else Some (t\<lparr>contents := (contents t)(p \<mapsto> []),
                  perm := (if p \<in> dom (contents t) then perm t else (perm t)(p := m))\<rparr>))"

text \<open>
  \<^verbatim>\<open>io.Copy(f, tr)\<close> into the file just opened: an unreadable body is an error and
  leaves the file as it was opened.
\<close>

definition io_Copy :: "string \<Rightarrow> string option \<Rightarrow> tree \<Rightarrow> tree option" where
  "io_Copy p body t =
     (case body of None \<Rightarrow> None | Some data \<Rightarrow> Some (t\<lparr>contents := (contents t)(p \<mapsto> data)\<rparr>))"

subsection \<open>Restore engine\<close>

text \<open>What the restore prints, and the trace of its prints and file system calls.\<close>

datatype message = WouldSkipExisting string | SkippingExisting string | WouldRestore string

datatype event = Print message | MkdirAll string | OpenFile string | Copy string

definition restoreFile :: "entry \<Rightarrow> bool \<Rightarrow> bool \<Rightarrow> tree \<Rightarrow> error option \<times> tree \<times> event list" where
  "restoreFile hdr dryRun force t =
     (if Name hdr = ''manifest.json'' then (None, t, [])
      else if os_Stat t (Name hdr) \<and> \<not> force then
        (None, t, [Print (if dryRun then WouldSkipExisting (Name hdr)
                          else SkippingExisting (Name hdr))])
      else if dryRun then (None, t, [Print (WouldRestore (Name hdr))])
      else
        let dir = filepath_Dir (Name hdr) in
        (case os_MkdirAll dir t of
           None \<Rightarrow> (Some (CreateDirectoryFailed dir), t, [MkdirAll dir])
         | Some t1 \<Rightarrow>
             (case os_OpenFile (Name hdr) (Mode hdr) t1 of
                None \<Rightarrow> (Some (CreateFileFailed (Name hdr)), t1, [MkdirAll dir, OpenFile (Name hdr)])
              | Some t2 \<Rightarrow>
                  (case io_Copy (Name hdr) (Body hdr) t2 of
                     None \<Rightarrow> (Some (WriteFileFailed (Name hdr)), t2,
                               [MkdirAll dir, OpenFile (Name hdr), Copy (Name hdr)])
                   | Some t3 \<Rightarrow> (None, t3,
                               [MkdirAll dir, OpenFile (Name hdr), Copy (Name hdr)])))))"

text \<open>
  The loop of \<^verbatim>\<open>RestoreSnapshot\<close> over the tar stream. After an entry whose body
  cannot be read and was not read, \<^verbatim>\<open>tr.Next()\<close> fails.
\<close>

fun restore_entries ::
    "entry list \<Rightarrow> bool \<Rightarrow> bool \<Rightarrow> bool \<Rightarrow> tree \<Rightarrow> error option \<times> tree \<times> event list" where
  "restore_entries [] eof dryRun force t = (if eof then None else Some TarHeaderFailed, t, [])"
| "restore_entries (hdr # es) eof dryRun force t =
     (case restoreFile hdr dryRun force t of
        (Some e, t', evs) \<Rightarrow> (Some e, t', evs)
      | (None, t', evs) \<Rightarrow>
          if Body hdr = None then (Some TarHeaderFailed, t', evs)
          else (case restore_entries es eof dryRun force t' of
                  (r, t'', evs') \<Rightarrow> (r, t'', evs @ evs')))"

text \<open>\<^verbatim>\<open>os.Open\<close> on a path returned by the selector; a directory opens, but is no gzip stream.\<close>

definition os_Open :: "snapdir \<Rightarrow> string \<Rightarrow> archive option" where
  "os_Open sd path =
     (case map_of (map (\<lambda>(n, x). (snapshot_path n, x)) sd) path of
        None \<Rightarrow> None
      | Some Directory \<Rightarrow> Some NotGzip
      | Some (File a) \<Rightarrow> Some a)"

definition RestoreSnapshot ::
    "matcher \<Rightarrow> (string \<Rightarrow> Manifest option) \<Rightarrow> snapdir \<Rightarrow> string \<Rightarrow> int \<Rightarrow> bool \<Rightarrow> bool \<Rightarrow> tree
       \<Rightarrow> unit outcome \<times> tree \<times> event list" where
  "RestoreSnapshot mtch unmarshal sd commit index force dryRun t =
     (case findSnapshot mtch sd commit index of
        Panic \<Rightarrow> (Panic, t, [])
      | Err e \<Rightarrow> (Err e, t, [])
      | Ok snapshot \<Rightarrow>
          (case os_Open sd snapshot of
             None \<Rightarrow> (Err OpenSnapshotFailed, t, [])
           | Some file \<Rightarrow>
               (case readManifestFromSnapshot unmarshal file of
                  Inl e \<Rightarrow> (Err e, t, [])
                | Inr manifest \<Rightarrow>
                    if CommitHash manifest \<noteq> commit then
                      (Err (CommitHashMismatch commit (CommitHash manifest)), t, [])
                    else
                      (case file of
                         NotGzip \<Rightarrow> (Err GzipReaderFailed, t, [])
                       | Tar es eof \<Rightarrow>
                           (case restore_entries es eof dryRun force t of
                              (Some e, t', evs) \<Rightarrow> (Err e, t', evs)
                            | (None, t', evs) \<Rightarrow> (Ok (), t', evs))))))"





subsection \<open>Retention pruner\<close>

text \<open>\<^verbatim>\<open>os.ReadDir\<close> returns the entries of the directory sorted by name.\<close>

definition os_ReadDir :: "snapdir \<Rightarrow> snapdir" where
  "os_ReadDir sd = sort_key fst sd"

text \<open>
  The map \<^verbatim>\<open>snapshots\<close> from commit to file names, as an association list with the
  keys in order of first insertion; \<open>group_append\<close> is
  \<^verbatim>\<open>snapshots[commit] = append(snapshots[commit], name)\<close>. Go ranges over the map in an
  unspecified order; the model ranges in insertion order.
\<close>

fun group_append :: "string \<Rightarrow> string \<Rightarrow> (string \<times> string list) list \<Rightarrow> (string \<times> string list) list" where
  "group_append commit name [] = [(commit, [name])]"
| "group_append commit name ((c, ns) # g) =
     (if c = commit then (c, ns @ [name]) # g else (c, ns) # group_append commit name g)"

fun group_snapshots :: "snapdir \<Rightarrow> (string \<times> string list) list \<Rightarrow> (string \<times> string list) list" where
  "group_snapshots [] g = g"
| "group_snapshots ((name, nd) # fs) g =
     group_snapshots fs
       (if nd \<noteq> Directory \<and> strings_HasSuffix name ''.tar.gz'' then
          (case strings_Split name (CHR ''_'') of
             commit # p # ps \<Rightarrow> group_append commit name g
           | parts \<Rightarrow> g)
        else g)"

text \<open>
  \<^verbatim>\<open>os.Remove\<close> of a name in the snapshots directory. Whether the system lets the
  file go is the parameter \<open>removable\<close>; a missing file is an error too.
\<close>

definition os_Remove :: "(string \<Rightarrow> bool) \<Rightarrow> string \<Rightarrow> snapdir \<Rightarrow> snapdir option" where
  "os_Remove removable name sd =
     (if name \<in> fst ` set sd \<and> removable name then Some (filter (\<lambda>(n, x). n \<noteq> name) sd)
      else None)"

fun delete_all :: "(string \<Rightarrow> bool) \<Rightarrow> string list \<Rightarrow> snapdir \<Rightarrow> error option \<times> snapdir" where
  "delete_all removable [] sd = (None, sd)"
| "delete_all removable (file # fs) sd =
     (case os_Remove removable file sd of
        None \<Rightarrow> (Some (DeleteSnapshotFailed file), sd)
      | Some sd' \<Rightarrow> delete_all removable fs sd')"

fun prune_groups ::
    "(string \<Rightarrow> bool) \<Rightarrow> int \<Rightarrow> (string \<times> string list) list \<Rightarrow> snapdir \<Rightarrow> error option \<times> snapdir" where
  "prune_groups removable retention [] sd = (None, sd)"
| "prune_groups removable retention ((commit, fs) # g) sd =
     (let sorted = sort_descending fs in
      if int (length sorted) > retention then
        (case delete_all removable (drop (nat retention) sorted) sd of
           (Some e, sd') \<Rightarrow> (Some e, sd')
         | (None, sd') \<Rightarrow> prune_groups removable retention g sd')
      else prune_groups removable retention g sd)"

text \<open>
  \<^verbatim>\<open>pruneCmd\<close>, after the configuration is loaded: \<open>flag\<close> is the value of
  \<^verbatim>\<open>--retention\<close> (0 when absent). The progress lines it prints are left out.
\<close>

definition pruneCmd :: "(string \<Rightarrow> bool) \<Rightarrow> int \<Rightarrow> 'a Config_scheme \<Rightarrow> snapdir \<Rightarrow> error option \<times> snapdir" where
  "pruneCmd removable flag cfg sd =
     (let retention = (if flag = 0 then Retention cfg else flag) in
      if retention < 1 then (Some RetentionInvalid, sd)
      else prune_groups removable retention (group_snapshots (os_ReadDir sd) []) sd)"

text \<open>The archives the pruner attributes to a commit: the names it files under that key.\<close>

definition pruned_as :: "string \<Rightarrow> string \<times> node \<Rightarrow> bool" where
  "pruned_as commit f =
     (snd f \<noteq> Directory \<and> strings_HasSuffix (fst f) ''.tar.gz''
      \<and> (case strings_Split (fst f) (CHR ''_'') of c # p # ps \<Rightarrow> c = commit | parts \<Rightarrow> False))"

definition snapshots_of :: "string \<Rightarrow> snapdir \<Rightarrow> string list" where
  "snapshots_of commit sd = map fst (filter (pruned_as commit) sd)"

subsection \<open>Notions used in the statements about the restore\<close>




subsection \<open>Notions used in the statements about the pruner\<close>

text \<open>The list stored under a key of the map \<^verbatim>\<open>snapshots\<close>, empty for an absent key.\<close>

definition grp :: "(string \<times> string list) list \<Rightarrow> string \<Rightarrow> string list" where
  "grp g c = (case map_of g c of None \<Rightarrow> [] | Some ns \<Rightarrow> ns)"

text \<open>
  The names a successful prune deletes: for every group with more than \<open>N\<close> names,
  the names after the first \<open>N\<close> in descending order; and the same for the group of
  one commit, read off the directory.
\<close>

definition doomed :: "int \<Rightarrow> (string \<times> string list) list \<Rightarrow> string set" where
  "doomed N g = (\<Union>(c, ns) \<in> set g.
      if int (length ns) > N then set (drop (nat N) (sort_descending ns)) else {})"

definition doomed_of :: "int \<Rightarrow> string \<Rightarrow> snapdir \<Rightarrow> string set" where
  "doomed_of N c sd =
     (if int (length (snapshots_of c sd)) > N
      then set (drop (nat N) (sort_descending (snapshots_of c sd))) else {})"

subsection \<open>Example inputs\<close>

text \<open>Two snapshots of commit \<^verbatim>\<open>abc123\<close>, taken a day apart.\<close>

definition two_snapshots :: snapdir where
  "two_snapshots =
     [(''abc123_20250102T0900_1.tar.gz'', File (Tar [] True)),
      (''abc123_20250101T0900_0.tar.gz'', File (Tar [] True))]"

definition minute_0905 :: timestamp where
  "minute_0905 = \<lparr>Year = 2025, Month = 1, Day = 2, Hour = 9, Minute = 5\<rparr>"

text \<open>A configuration that excludes log files and includes every \<^verbatim>\<open>app.*\<close>.\<close>

definition log_cfg :: Config where
  "log_cfg = \<lparr>Retention = 10, SnapshotOn = [''commit''], RestoreOn = [''checkout''],
     HooksEnabled = False, Exclude = [''*.log''], Include = [''app.*'']\<rparr>"

definition log_candidates :: "string list" where
  "log_candidates = [''logs/app.log'', ''notes.txt'', ''tmp/x.log'']"

text \<open>An empty working tree.\<close>

definition empty_tree :: tree where
  "empty_tree = \<lparr>contents = Map.empty, directories = {}, perm = (\<lambda>p. 0)\<rparr>"

text \<open>
  An archive stored under a name of commit \<^verbatim>\<open>abc123\<close> whose manifest is bound to
  commit \<^verbatim>\<open>def456\<close>; \<open>decode_M\<close> stands for \<^verbatim>\<open>json.Unmarshal\<close> on its manifest bytes.
\<close>

definition other_manifest :: Manifest where
  "other_manifest = \<lparr>CommitHash = ''def456'',
     Timestamp = \<lparr>Year = 2025, Month = 1, Day = 1, Hour = 9, Minute = 0\<rparr>,
     Index = 0, Files = [''.env'' \<mapsto> ''digest''], ManifestConfig = log_cfg\<rparr>"

definition decode_M :: "string \<Rightarrow> Manifest option" where
  "decode_M d = (if d = ''M'' then Some other_manifest else None)"











text \<open>
  A working tree whose root holds a file of the user named \<^verbatim>\<open>manifest.json\<close>, the
  archive entry that carries an older version of that file, and a fresh manifest.
\<close>

definition colliding_tree :: tree where
  "colliding_tree = \<lparr>contents = [''manifest.json'' \<mapsto> ''name: app''], directories = {},
                      perm = (\<lambda>p. 420)\<rparr>"


definition fresh_manifest :: Manifest where
  "fresh_manifest = \<lparr>CommitHash = ''abc123'',
     Timestamp = \<lparr>Year = 2025, Month = 1, Day = 1, Hour = 9, Minute = 0\<rparr>,
     Index = 0, Files = Map.empty, ManifestConfig = log_cfg\<rparr>"

text \<open>
  A snapshots directory with three snapshots of \<^verbatim>\<open>abc123\<close>, one of \<^verbatim>\<open>def456\<close> and a
  subdirectory, and what is left of it after a prune with retention 2.
\<close>

definition prune_dir :: snapdir where
  "prune_dir =
     [(''abc123_20250102T0900_1.tar.gz'', File (Tar [] True)),
      (''notes'', Directory),
      (''abc123_20250101T0900_0.tar.gz'', File (Tar [] True)),
      (''def456_20250101T0900_0.tar.gz'', File (Tar [] True)),
      (''abc123_20250103T0900_2.tar.gz'', File (Tar [] True))]"

definition prune_dir_after :: snapdir where
  "prune_dir_after =
     [(''abc123_20250102T0900_1.tar.gz'', File (Tar [] True)),
      (''notes'', Directory),
      (''def456_20250101T0900_0.tar.gz'', File (Tar [] True)),
      (''abc123_20250103T0900_2.tar.gz'', File (Tar [] True))]"

text \<open>A configuration whose retention is 2.\<close>

definition keep_two_cfg :: Config where
  "keep_two_cfg = \<lparr>Retention = 2, SnapshotOn = [''commit''], RestoreOn = [''checkout''],
     HooksEnabled = False, Exclude = [''*.log''], Include = []\<rparr>"

section \<open>Properties of the file filter\<close>

lemma excluded_iff: "excluded mtch ps file = matches_any mtch ps file"
  by (induction ps) (auto simp: matches_any_def)

lemma set_map_store: "set (map_store k m) = insert k (set m)"
  by (auto simp: map_store_def)

lemma distinct_map_store: "distinct m \<Longrightarrow> distinct (map_store k m)"
  by (simp add: map_store_def)

lemma set_add_not_excluded:
  "set (add_not_excluded mtch ex files inc) =
     set inc \<union> {f \<in> set files. \<not> matches_any mtch ex f}"
  by (induction files arbitrary: inc) (auto simp: set_map_store excluded_iff)

lemma distinct_add_not_excluded:
  "distinct inc \<Longrightarrow> distinct (add_not_excluded mtch ex files inc)"
  by (induction files arbitrary: inc) (simp_all add: distinct_map_store)

lemma set_add_matching:
  "set (add_matching mtch p files inc) =
     set inc \<union> {f \<in> set files. mtch p (filepath_Base f) = Inr True}"
  by (induction files arbitrary: inc) (auto simp: set_map_store)

lemma distinct_add_matching:
  "distinct inc \<Longrightarrow> distinct (add_matching mtch p files inc)"
  by (induction files arbitrary: inc) (simp_all add: distinct_map_store)

lemma set_add_included:
  "set (add_included mtch ps files inc) =
     set inc \<union> {f \<in> set files. matches_any mtch ps f}"
  by (induction ps arbitrary: inc) (auto simp: set_add_matching matches_any_def)

lemma distinct_add_included:
  "distinct inc \<Longrightarrow> distinct (add_included mtch ps files inc)"
  by (induction ps arbitrary: inc) (simp_all add: distinct_add_matching)

lemma set_filterFiles:
  "set (filterFiles mtch files cfg) =
     {f \<in> set files. \<not> matches_any mtch (Exclude cfg) f \<or> matches_any mtch (Include cfg) f}"
  by (auto simp: filterFiles_def set_add_included set_add_not_excluded)

lemma distinct_filterFiles: "distinct (filterFiles mtch files cfg)"
  by (simp add: filterFiles_def distinct_add_included distinct_add_not_excluded)

text \<open>
  C7. A candidate path whose base name matches an include pattern is in the output of
  the filter, whatever the exclude patterns are; the output has no duplicates; and
  whether a candidate is kept is decided by its base name alone: it is kept exactly
  when its base name matches no exclude pattern or matches some include pattern, so
  two candidates with the same base name are kept or dropped together.
\<close>

theorem filterFiles_include_precedence:
  "(\<forall>P \<in> set files. \<forall>pat \<in> set (Include cfg).
       mtch pat (filepath_Base P) = Inr True \<longrightarrow> P \<in> set (filterFiles mtch files cfg))
   \<and> distinct (filterFiles mtch files cfg)
   \<and> (\<forall>P \<in> set files. P \<in> set (filterFiles mtch files cfg) \<longleftrightarrow>
        (\<not> (\<exists>pat \<in> set (Exclude cfg). mtch pat (filepath_Base P) = Inr True)
         \<or> (\<exists>pat \<in> set (Include cfg). mtch pat (filepath_Base P) = Inr True)))
   \<and> (\<forall>P \<in> set files. \<forall>Q \<in> set files. filepath_Base P = filepath_Base Q \<longrightarrow>
        (P \<in> set (filterFiles mtch files cfg) \<longleftrightarrow> Q \<in> set (filterFiles mtch files cfg)))"
  by (auto simp: set_filterFiles distinct_filterFiles matches_any_def)

theorem filterFiles_include_precedence_witness:
  "''logs/app.log'' \<in> set log_candidates
   \<and> ''app.*'' \<in> set (Include log_cfg)
   \<and> Match_fragment ''app.*'' (filepath_Base ''logs/app.log'') = Inr True
   \<and> Match_fragment ''*.log'' (filepath_Base ''logs/app.log'') = Inr True
   \<and> ''logs/app.log'' \<in> set (filterFiles Match_fragment log_candidates log_cfg)"
proof -
  have a: "''logs/app.log'' \<in> set log_candidates"
    by (simp add: log_candidates_def)
  have b: "''app.*'' \<in> set (Include log_cfg)"
    by (simp add: log_cfg_def)
  have c: "Match_fragment ''app.*'' (filepath_Base ''logs/app.log'') = Inr True"
    by (simp add: Match_fragment_def filepath_Base_def)
  have d: "Match_fragment ''*.log'' (filepath_Base ''logs/app.log'') = Inr True"
    by (simp add: Match_fragment_def filepath_Base_def)
  from filterFiles_include_precedence [of log_candidates log_cfg Match_fragment]
  have "\<forall>P \<in> set log_candidates. \<forall>pat \<in> set (Include log_cfg).
          Match_fragment pat (filepath_Base P) = Inr True
          \<longrightarrow> P \<in> set (filterFiles Match_fragment log_candidates log_cfg)"
    by blast
  with a b c have "''logs/app.log'' \<in> set (filterFiles Match_fragment log_candidates log_cfg)"
    by blast
  with a b c d show ?thesis by blast
qed

text \<open>
  C9. The output of the filter is a subset of the candidate list: an include pattern
  keeps candidates only and never adds a path that was not among them.
\<close>

theorem filterFiles_subset_input:
  "set (filterFiles mtch files cfg) \<subseteq> set files"
  by (auto simp: set_filterFiles)

section \<open>Properties of the snapshot selector and of the file names\<close>

lemma glob_loop_no_error:
  "\<forall>n \<in> set ns. \<not> isl (mtch p n) \<Longrightarrow>
     glob_loop mtch p ns m = (m @ map snapshot_path (filter (\<lambda>n. mtch p n = Inr True) ns), None)"
proof (induction ns arbitrary: m)
  case Nil
  then show ?case by simp
next
  case (Cons n ns)
  then obtain b where "mtch p n = Inr b"
    by (cases "mtch p n") auto
  with Cons show ?case by (cases b) auto
qed

lemma Glob_no_error:
  assumes "\<forall>n \<in> set ([] # map fst sd). \<not> isl (mtch p n)"
  shows "Glob mtch sd p
           = (map snapshot_path (filter (\<lambda>n. mtch p n = Inr True) (sort (map fst sd))), None)"
proof -
  from assms obtain b where "mtch p [] = Inr b"
    by (cases "mtch p []") auto
  moreover from assms have "\<forall>n \<in> set (sort (map fst sd)). \<not> isl (mtch p n)"
    by simp
  ultimately show ?thesis
    by (simp add: Glob_def glob_loop_no_error)
qed

text \<open>
  What the selector does: for an index within bounds it returns the entry at that
  index of the ascending listing.
\<close>

lemma findSnapshot_selects_ascending:
  assumes "\<forall>n \<in> set ([] # map fst sd). \<not> isl (mtch (commit_pattern c) n)"
      and "0 \<le> i"
      and "i < int (length (filter (\<lambda>n. mtch (commit_pattern c) n = Inr True) (map fst sd)))"
  shows "findSnapshot mtch sd c i
           = Ok (snapshot_path
                  (sort (filter (\<lambda>n. mtch (commit_pattern c) n = Inr True) (map fst sd)) ! nat i))"
proof -
  define ms where "ms = sort (filter (\<lambda>n. mtch (commit_pattern c) n = Inr True) (map fst sd))"
  have "filter (\<lambda>n. mtch (commit_pattern c) n = Inr True) (sort (map fst sd)) = ms"
    by (simp add: ms_def filter_sort)
  with Glob_no_error [of sd mtch "commit_pattern c", OF assms(1)]
  have g: "Glob mtch sd (commit_pattern c) = (map snapshot_path ms, None)"
    by simp
  have "length ms = length (filter (\<lambda>n. mtch (commit_pattern c) n = Inr True) (map fst sd))"
    by (simp add: ms_def)
  with assms(2,3) have len: "nat i < length ms" "i < int (length ms)"
    by linarith+
  then have "findSnapshot mtch sd c i = Ok (snapshot_path (ms ! nat i))"
    using assms(2) by (auto simp: findSnapshot_def g)
  then show ?thesis
    by (simp only: ms_def)
qed

text \<open>
  C1. The claim is that \<^verbatim>\<open>findSnapshot(commit, i)\<close> returns the \<open>(i+1)\<close>-th name in
  descending order, so that index 0 is the newest snapshot. The code indexes the
  ascending listing: with two snapshots of \<^verbatim>\<open>abc123\<close> on disk, index 0 selects the
  older one, whereas the descending order, the inspect command and the status
  command all put the newer one first.
\<close>

theorem findSnapshot_index0_selects_oldest:
  "findSnapshot Match_fragment two_snapshots ''abc123'' 0
     = Ok ''.ignoregrets/snapshots/abc123_20250101T0900_0.tar.gz''
   \<and> sort_descending (map fst two_snapshots) ! 0 = ''abc123_20250102T0900_1.tar.gz''
   \<and> inspect_select Match_fragment two_snapshots ''abc123'' 0
     = Ok ''.ignoregrets/snapshots/abc123_20250102T0900_1.tar.gz''
   \<and> findLatestSnapshot_select Match_fragment two_snapshots ''abc123''
     = Ok ''.ignoregrets/snapshots/abc123_20250102T0900_1.tar.gz''"
  by code_simp

text \<open>
  C2. The claim is that the order of file names equals the order of
  \<open>(timestamp, index)\<close> keys for all timestamps and indices. The index is written
  without padding: for two snapshots of the same commit and minute, index 9 comes
  before index 10 as a key, but the name with index 10 sorts before the name with
  index 9.
\<close>

theorem snapshot_name_order_breaks_at_index_10:
  "key_less (minute_0905, 9) (minute_0905, 10)
   \<and> snapshot_name ''abc123'' minute_0905 9 = ''abc123_20250102T0905_9.tar.gz''
   \<and> snapshot_name ''abc123'' minute_0905 10 = ''abc123_20250102T0905_10.tar.gz''
   \<and> snapshot_name ''abc123'' minute_0905 10 < snapshot_name ''abc123'' minute_0905 9"
  by code_simp

text \<open>
  The selector panics exactly when the commit has a snapshot and the index is
  negative; the same holds for the selection of the inspect command.
\<close>

lemma findSnapshot_panics_iff:
  "findSnapshot mtch sd c i = Panic \<longleftrightarrow>
     (snd (Glob mtch sd (commit_pattern c)) = None \<and> fst (Glob mtch sd (commit_pattern c)) \<noteq> []
      \<and> i < 0)"
  by (auto simp: findSnapshot_def split: prod.splits option.splits)

lemma inspect_select_panics_iff:
  "inspect_select mtch sd c i = Panic \<longleftrightarrow>
     (snd (Glob mtch sd (commit_pattern c)) = None \<and> fst (Glob mtch sd (commit_pattern c)) \<noteq> []
      \<and> i < 0)"
  by (auto simp: inspect_select_def Let_def sort_descending_def split: prod.splits option.splits)

text \<open>
  C10. The claim is that the selection is total for every index, negative ones
  included. With a snapshot on disk, index \<open>-1\<close> passes the only bound check and
  reaches the slice access, which panics, in \<^verbatim>\<open>findSnapshot\<close> and in the inspect
  command alike.
\<close>

theorem findSnapshot_negative_index_panics:
  "findSnapshot Match_fragment two_snapshots ''abc123'' (- 1) = Panic
   \<and> inspect_select Match_fragment two_snapshots ''abc123'' (- 1) = Panic"
  by code_simp

section \<open>Properties of the archive codec\<close>

lemma add_files_ok:
  "add_files sha t ps (tw, m) = (None, tw', m') \<Longrightarrow>
     tw' = tw @ map (\<lambda>p. \<lparr>Name = p, Mode = perm t p, Body = contents t p\<rparr>) ps
     \<and> set ps \<subseteq> dom (contents t)
     \<and> Files m' = (\<lambda>p. if p \<in> set ps then map_option sha (contents t p) else Files m p)
     \<and> CommitHash m' = CommitHash m"
proof (induction ps arbitrary: tw m)
  case Nil
  then show ?case by simp
next
  case (Cons p ps)
  from Cons.prems obtain data where d: "contents t p = Some data"
    by (auto simp: addFileToArchive_def split: option.splits)
  let ?tw1 = "tw @ [\<lparr>Name = p, Mode = perm t p, Body = Some data\<rparr>]"
  let ?m1 = "m\<lparr>Files := (Files m)(p \<mapsto> sha data)\<rparr>"
  from Cons.prems d have "add_files sha t ps (?tw1, ?m1) = (None, tw', m')"
    by (simp add: addFileToArchive_def)
  from Cons.IH [OF this] d show ?case
    by (auto simp: fun_eq_iff)
qed

lemma scan_manifest_skip:
  "\<forall>e \<in> set es. Name e \<noteq> ''manifest.json'' \<and> Body e \<noteq> None \<Longrightarrow>
     scan_manifest unm (es @ rest) eof = scan_manifest unm rest eof"
  by (induction es) auto

text \<open>
  The round trip holds when no file of the set is named \<^verbatim>\<open>manifest.json\<close>: if the
  write path succeeds and \<^verbatim>\<open>json.Unmarshal\<close> inverts \<^verbatim>\<open>json.Marshal\<close>, the manifest read
  back has exactly the given paths as keys, each with the digest of the file's
  content.
\<close>

lemma ReadManifest_roundtrip:
  assumes reserved: "''manifest.json'' \<notin> set paths"
      and written: "write_archive sha marshal t paths m0 = (None, es)"
      and fresh: "Files m0 = Map.empty"
      and codec: "\<And>m d. marshal m = Some d \<Longrightarrow> unmarshal d = Some m"
  shows "\<exists>m. ReadManifest unmarshal (Tar es True) = Inr m
             \<and> dom (Files m) = set paths
             \<and> (\<forall>p \<in> set paths. Files m p = map_option sha (contents t p))
             \<and> CommitHash m = CommitHash m0"
proof -
  from written obtain tw m d where
      a: "add_files sha t paths ([], m0) = (None, tw, m)"
    and md: "marshal m = Some d"
    and es: "es = tw @ [\<lparr>Name = ''manifest.json'', Mode = 420, Body = Some d\<rparr>]"
    by (auto simp: write_archive_def split: prod.splits option.splits)
  from add_files_ok [OF a] have
      tw: "tw = map (\<lambda>p. \<lparr>Name = p, Mode = perm t p, Body = contents t p\<rparr>) paths"
    and sub: "set paths \<subseteq> dom (contents t)"
    and fm: "Files m = (\<lambda>p. if p \<in> set paths then map_option sha (contents t p) else Files m0 p)"
    and cm: "CommitHash m = CommitHash m0"
    by simp_all
  from tw sub reserved have "\<forall>e \<in> set tw. Name e \<noteq> ''manifest.json'' \<and> Body e \<noteq> None"
    by auto
  from scan_manifest_skip [OF this] es md codec [OF md]
  have "ReadManifest unmarshal (Tar es True) = Inr m"
    by (simp add: ReadManifest_def)
  moreover from fm fresh sub have "dom (Files m) = set paths"
    by (auto simp: dom_def split: if_splits)
  moreover from fm have "\<forall>p \<in> set paths. Files m p = map_option sha (contents t p)"
    by simp
  ultimately show ?thesis using cm by blast
qed

text \<open>
  C6. The claim is the round trip for every file set. For the set that holds one
  file at the path \<^verbatim>\<open>manifest.json\<close>, the write path succeeds and produces two
  entries of that name, the file first and the manifest last; \<^verbatim>\<open>ReadManifest\<close> stops
  at the first one and decodes the bytes of the file, whatever the codec and the
  digest are. With a decoder that accepts the manifest bytes and rejects the file's,
  no manifest is returned at all.
\<close>

theorem reserved_name_shadows_manifest:
  "write_archive sha (\<lambda>m. Some (enc m)) colliding_tree [''manifest.json''] fresh_manifest
     = (None,
        [\<lparr>Name = ''manifest.json'', Mode = 420, Body = Some ''name: app''\<rparr>,
         \<lparr>Name = ''manifest.json'', Mode = 420,
          Body = Some (enc (fresh_manifest\<lparr>Files := [''manifest.json'' \<mapsto> sha ''name: app'']\<rparr>))\<rparr>])
   \<and> ReadManifest unm
        (Tar (snd (write_archive sha (\<lambda>m. Some (enc m)) colliding_tree [''manifest.json'']
                     fresh_manifest)) True)
     = (case unm ''name: app'' of None \<Rightarrow> Inl ManifestParseFailed | Some m \<Rightarrow> Inr m)
   \<and> decode_M ''M'' = Some other_manifest
   \<and> ReadManifest decode_M
        (Tar (snd (write_archive sha (\<lambda>m. Some ''M'') colliding_tree [''manifest.json'']
                     fresh_manifest)) True)
     = Inl ManifestParseFailed"
  by (simp add: write_archive_def addFileToArchive_def colliding_tree_def fresh_manifest_def
      ReadManifest_def decode_M_def)

section \<open>Properties of the restore engine\<close>

text \<open>The definitions unfolded to run the restore on the example inputs.\<close>

lemmas example_defs = findSnapshot_def Glob_def commit_pattern_def Match_fragment_def
  snapshot_path_def os_Open_def readManifestFromSnapshot_def RestoreSnapshot_def
  restoreFile_def Let_def os_Stat_def is_dir_def os_MkdirAll_def mkdir_targets_def
  os_OpenFile_def io_Copy_def filepath_Dir_def filepath_Clean_def clean_step_def



subsection \<open>Existing paths are kept\<close>

lemma is_dir_cong: "(p \<in> directories t' \<longleftrightarrow> p \<in> directories t) \<Longrightarrow> is_dir t' p = is_dir t p"
  by (simp add: is_dir_def)
















text \<open>
  The target has to be a regular file: over a directory of that name the forced
  restore fails when it opens the file.
\<close>

lemma restore_force_fails_on_directory:
  "restoreFile \<lparr>Name = ''build'', Mode = 420, Body = Some ''x''\<rparr> False True
       (empty_tree\<lparr>directories := {''build''}\<rparr>)
     = (Some (CreateFileFailed ''build''), empty_tree\<lparr>directories := {''build''}\<rparr>,
        [MkdirAll ''.'', OpenFile ''build''])"
  by (simp add: restoreFile_def Let_def os_Stat_def is_dir_def os_MkdirAll_def mkdir_targets_def
        os_OpenFile_def filepath_Dir_def filepath_Clean_def clean_step_def empty_tree_def)

subsection \<open>Dry runs\<close>
















text \<open>
  The two other conditions of the amended statement are needed as well. When a
  regular file \<^verbatim>\<open>a\<close> is in the way of the entry \<^verbatim>\<open>a/b\<close>, the dry run reports a restore
  and the real run fails; and when the archive holds \<^verbatim>\<open>a/b\<close> and then \<^verbatim>\<open>a\<close>, the real
  run makes the directory \<^verbatim>\<open>a\<close> and then skips the entry \<^verbatim>\<open>a\<close>, which the dry run
  reports as a restore.
\<close>

lemma dry_run_report_differs_on_failure:
  "restore_entries [\<lparr>Name = ''a/b'', Mode = 420, Body = Some ''1''\<rparr>] True True False
       (empty_tree\<lparr>contents := [''a'' \<mapsto> ''file'']\<rparr>)
     = (None, empty_tree\<lparr>contents := [''a'' \<mapsto> ''file'']\<rparr>, [Print (WouldRestore ''a/b'')])
   \<and> restore_entries [\<lparr>Name = ''a/b'', Mode = 420, Body = Some ''1''\<rparr>] True False False
       (empty_tree\<lparr>contents := [''a'' \<mapsto> ''file'']\<rparr>)
     = (Some (CreateDirectoryFailed ''a''), empty_tree\<lparr>contents := [''a'' \<mapsto> ''file'']\<rparr>,
        [MkdirAll ''a''])"
  by (simp add: example_defs empty_tree_def)

lemma dry_run_report_differs_on_directory_name:
  "snd (snd (restore_entries [\<lparr>Name = ''a/b'', Mode = 420, Body = Some ''1''\<rparr>,
                             \<lparr>Name = ''a'', Mode = 420, Body = Some ''2''\<rparr>] True True False
               empty_tree))
     = [Print (WouldRestore ''a/b''), Print (WouldRestore ''a'')]
   \<and> fst (restore_entries [\<lparr>Name = ''a/b'', Mode = 420, Body = Some ''1''\<rparr>,
                           \<lparr>Name = ''a'', Mode = 420, Body = Some ''2''\<rparr>] True False False
             empty_tree) = None
   \<and> snd (snd (restore_entries [\<lparr>Name = ''a/b'', Mode = 420, Body = Some ''1''\<rparr>,
                               \<lparr>Name = ''a'', Mode = 420, Body = Some ''2''\<rparr>] True False False
                 empty_tree))
     = [MkdirAll ''a'', OpenFile ''a/b'', Copy ''a/b'', Print (SkippingExisting ''a'')]"
  by (simp add: example_defs empty_tree_def)

section \<open>Properties of the retention pruner\<close>

lemma grp_group_append:
  "grp (group_append c n g) c' = (if c' = c then grp g c @ [n] else grp g c')"
  by (induction g) (auto simp: grp_def)

lemma grp_Nil: "grp [] c = []"
  by (simp add: grp_def)

lemma map_fst_group_append:
  "map fst (group_append c n g) = (if c \<in> fst ` set g then map fst g else map fst g @ [c])"
proof (induction g)
  case Nil
  then show ?case by simp
next
  case (Cons a g)
  obtain k ns where a: "a = (k, ns)" by (cases a)
  have mem: "\<And>x y. (x, y) \<in> set g \<Longrightarrow> x \<in> fst ` set g"
    by (metis fst_conv image_eqI)
  show ?case
    unfolding a using Cons.IH mem by (cases "k = c") auto
qed

lemma distinct_group_append:
  "distinct (map fst g) \<Longrightarrow> distinct (map fst (group_append c n g))"
  by (simp add: map_fst_group_append)

lemma pruned_as_unique: "pruned_as c f \<Longrightarrow> pruned_as c' f \<Longrightarrow> c = c'"
  by (auto simp: pruned_as_def split: list.splits)

lemma grp_group_snapshots:
  "grp (group_snapshots fs g) c = grp g c @ snapshots_of c fs"
proof (induction fs arbitrary: g)
  case Nil
  then show ?case by (simp add: snapshots_of_def)
next
  case (Cons f fs)
  obtain name nd where f: "f = (name, nd)" by (cases f)
  show ?case
    unfolding f
    by (simp add: Cons.IH grp_group_append snapshots_of_def pruned_as_def split: list.splits)
qed

lemma distinct_group_snapshots:
  "distinct (map fst g) \<Longrightarrow> distinct (map fst (group_snapshots fs g))"
proof (induction fs arbitrary: g)
  case Nil
  then show ?case by simp
next
  case (Cons f fs)
  obtain name nd where f: "f = (name, nd)" by (cases f)
  from Cons.prems show ?case
    unfolding f
    by (auto intro!: Cons.IH distinct_group_append split: list.splits)
qed

lemma grp_all: "grp (group_snapshots fs []) c = snapshots_of c fs"
  by (simp add: grp_group_snapshots grp_Nil)

lemma group_member:
  assumes "(c, ns) \<in> set (group_snapshots fs [])"
  shows "ns = snapshots_of c fs"
proof -
  have "distinct (map fst (group_snapshots fs []))"
    by (rule distinct_group_snapshots) simp
  with assms have "map_of (group_snapshots fs []) c = Some ns"
    by simp
  then have "grp (group_snapshots fs []) c = ns"
    by (simp add: grp_def)
  with grp_all [of fs c] show ?thesis by simp
qed

lemma delete_all_ok:
  "delete_all rm ns sd = (None, sd') \<Longrightarrow> sd' = filter (\<lambda>f. fst f \<notin> set ns) sd"
proof (induction ns arbitrary: sd)
  case Nil
  then show ?case by simp
next
  case (Cons n ns)
  from Cons.prems obtain sd1 where r: "os_Remove rm n sd = Some sd1"
      and d: "delete_all rm ns sd1 = (None, sd')"
    by (auto split: option.splits)
  have "(\<lambda>(m, x). m \<noteq> n) = (\<lambda>f::string \<times> node. fst f \<noteq> n)"
    by auto
  with r have "sd1 = filter (\<lambda>f. fst f \<noteq> n) sd"
    by (auto simp: os_Remove_def split: if_splits)
  with Cons.IH [OF d] show ?case
    by (auto intro: filter_cong)
qed

lemma prune_groups_ok:
  "prune_groups rm N g sd = (None, sd') \<Longrightarrow> sd' = filter (\<lambda>f. fst f \<notin> doomed N g) sd"
proof (induction g arbitrary: sd)
  case Nil
  then show ?case by (simp add: doomed_def)
next
  case (Cons a g)
  obtain c ns where a: "a = (c, ns)" by (cases a)
  show ?case
  proof (cases "int (length ns) > N")
    case True
    with Cons.prems a obtain sd1 where
        d: "delete_all rm (drop (nat N) (sort_descending ns)) sd = (None, sd1)"
      and p: "prune_groups rm N g sd1 = (None, sd')"
      by (auto simp: Let_def sort_descending_def split: prod.splits option.splits)
    from delete_all_ok [OF d] Cons.IH [OF p] True a show ?thesis
      by (auto simp: doomed_def intro: filter_cong)
  next
    case False
    with Cons.prems a have "prune_groups rm N g sd = (None, sd')"
      by (simp add: Let_def sort_descending_def)
    from Cons.IH [OF this] False a show ?thesis
      by (auto simp: doomed_def intro: filter_cong)
  qed
qed


lemma group_present:
  assumes "snapshots_of c fs \<noteq> []"
  shows "(c, snapshots_of c fs) \<in> set (group_snapshots fs [])"
proof -
  from assms grp_all [of fs c]
  obtain ns where "map_of (group_snapshots fs []) c = Some ns" "ns = snapshots_of c fs"
    by (auto simp: grp_def split: option.splits)
  then show ?thesis
    by (auto dest: map_of_SomeD)
qed

lemma pruned_as_name: "pruned_as c f \<Longrightarrow> pruned_as c' f' \<Longrightarrow> fst f = fst f' \<Longrightarrow> c = c'"
  by (auto simp: pruned_as_def split: list.splits)

lemma snapshots_of_ReadDir_mset:
  "mset (snapshots_of c (os_ReadDir sd)) = mset (snapshots_of c sd)"
  by (simp add: snapshots_of_def os_ReadDir_def)

lemma sort_descending_ReadDir:
  "sort_descending (snapshots_of c (os_ReadDir sd)) = sort_descending (snapshots_of c sd)"
proof -
  have "sort (snapshots_of c sd) = sort (snapshots_of c (os_ReadDir sd))"
    by (rule properties_for_sort) (simp_all add: snapshots_of_ReadDir_mset)
  then show ?thesis by (simp add: sort_descending_def)
qed

lemma length_snapshots_of_ReadDir:
  "length (snapshots_of c (os_ReadDir sd)) = length (snapshots_of c sd)"
  using snapshots_of_ReadDir_mset [of c sd] by (metis size_mset)

lemma set_snapshots_of_ReadDir:
  "set (snapshots_of c (os_ReadDir sd)) = set (snapshots_of c sd)"
  using snapshots_of_ReadDir_mset [of c sd] by (metis set_mset_mset)

lemma doomedI:
  "(c, ns) \<in> set g \<Longrightarrow> int (length ns) > N \<Longrightarrow> x \<in> set (drop (nat N) (sort_descending ns)) \<Longrightarrow>
     x \<in> doomed N g"
  unfolding doomed_def by (rule UN_I [of "(c, ns)"]) simp_all

lemma doomed_in_group:
  assumes f: "pruned_as c f"
  shows "fst f \<in> doomed N (group_snapshots (os_ReadDir sd) []) \<longleftrightarrow> fst f \<in> doomed_of N c sd"
proof
  assume "fst f \<in> doomed N (group_snapshots (os_ReadDir sd) [])"
  then obtain c' ns where g: "(c', ns) \<in> set (group_snapshots (os_ReadDir sd) [])"
      and big: "int (length ns) > N"
      and d: "fst f \<in> set (drop (nat N) (sort_descending ns))"
    by (auto simp: doomed_def split: if_splits)
  from group_member [OF g] have ns: "ns = snapshots_of c' (os_ReadDir sd)" .
  from d have "fst f \<in> set ns"
    by (auto simp: sort_descending_def dest: in_set_dropD)
  with ns have "fst f \<in> set (snapshots_of c' sd)"
    by (simp add: set_snapshots_of_ReadDir)
  then obtain f' where "pruned_as c' f'" "fst f' = fst f"
    by (auto simp: snapshots_of_def)
  with f have "c' = c"
    using pruned_as_name by metis
  with big d ns show "fst f \<in> doomed_of N c sd"
    by (simp add: doomed_of_def sort_descending_ReadDir length_snapshots_of_ReadDir)
next
  assume a: "fst f \<in> doomed_of N c sd"
  then have big: "int (length (snapshots_of c sd)) > N"
      and d: "fst f \<in> set (drop (nat N) (sort_descending (snapshots_of c sd)))"
    by (simp_all add: doomed_of_def split: if_splits)
  from d have "snapshots_of c sd \<noteq> []"
    by (auto simp: sort_descending_def)
  then have "snapshots_of c (os_ReadDir sd) \<noteq> []"
    using set_snapshots_of_ReadDir [of c sd] by (metis set_empty)
  from group_present [OF this]
  have g: "(c, snapshots_of c (os_ReadDir sd)) \<in> set (group_snapshots (os_ReadDir sd) [])" .
  from big have big': "int (length (snapshots_of c (os_ReadDir sd))) > N"
    by (simp add: length_snapshots_of_ReadDir)
  from d have d': "fst f \<in> set (drop (nat N) (sort_descending (snapshots_of c (os_ReadDir sd))))"
    by (simp add: sort_descending_ReadDir)
  from doomedI [OF g big' d'] show "fst f \<in> doomed N (group_snapshots (os_ReadDir sd) [])" .
qed

lemma pruneCmd_ok:
  assumes "N = (if flag = 0 then Retention cfg else flag)" and "1 \<le> N"
      and "pruneCmd rm flag cfg sd = (None, sd')"
  shows "filter (pruned_as c) sd' = filter (\<lambda>f. pruned_as c f \<and> fst f \<notin> doomed_of N c sd) sd"
proof -
  from assms have "prune_groups rm N (group_snapshots (os_ReadDir sd) []) sd = (None, sd')"
    by (simp add: pruneCmd_def Let_def split: if_splits)
  from prune_groups_ok [OF this]
  have "filter (pruned_as c) sd'
          = filter (\<lambda>f. pruned_as c f \<and> fst f \<notin> doomed N (group_snapshots (os_ReadDir sd) [])) sd"
    by (simp add: conj_commute)
  also have "(\<lambda>f. pruned_as c f \<and> fst f \<notin> doomed N (group_snapshots (os_ReadDir sd) []))
               = (\<lambda>f. pruned_as c f \<and> fst f \<notin> doomed_of N c sd)"
    by (rule ext) (use doomed_in_group in blast)
  finally show ?thesis .
qed

lemma snapshots_of_pruned:
  assumes "N = (if flag = 0 then Retention cfg else flag)" and "1 \<le> N"
      and "pruneCmd rm flag cfg sd = (None, sd')"
  shows "snapshots_of c sd' = filter (\<lambda>n. n \<notin> doomed_of N c sd) (snapshots_of c sd)"
  by (simp add: snapshots_of_def pruneCmd_ok [OF assms] filter_map o_def conj_commute)

lemma distinct_snapshots_of: "distinct (map fst sd) \<Longrightarrow> distinct (snapshots_of c sd)"
  by (simp add: snapshots_of_def distinct_map_filter)

lemma descending_split:
  assumes "distinct xs"
  shows "\<forall>a \<in> set (take k (sort_descending xs)). \<forall>b \<in> set (drop k (sort_descending xs)). b < a"
proof -
  have "sorted_wrt (<) (sort xs)"
    using assms by (simp add: strict_sorted_iff)
  then have "sorted_wrt (\<lambda>a b. b < a) (sort_descending xs)"
    by (simp add: sort_descending_def sorted_wrt_rev)
  then have "sorted_wrt (\<lambda>a b. b < a) (take k (sort_descending xs) @ drop k (sort_descending xs))"
    by simp
  then show ?thesis
    unfolding sorted_wrt_append by blast
qed


lemma pruneCmd_retention_below_1:
  "(if flag = 0 then Retention cfg else flag) < 1 \<Longrightarrow>
     pruneCmd rm flag cfg sd = (Some RetentionInvalid, sd)"
  by (simp add: pruneCmd_def Let_def)

text \<open>
  C8. The retention count \<open>N\<close> of a prune is the value of \<^verbatim>\<open>--retention\<close>, or the
  \<^verbatim>\<open>retention\<close> of the configuration when the flag is absent (zero). When a prune
  with \<open>N \<ge> 1\<close> completes without error on a directory of distinct names, every commit
  that had more than \<open>N\<close> archives has exactly \<open>N\<close> left: they are the first \<open>N\<close> of
  its names in descending order, and each of them is greater than each name that was
  deleted. The archives of a commit that had at most \<open>N\<close> are all still there,
  unchanged.
\<close>

theorem prune_keeps_newest:
  assumes dist: "distinct (map fst sd)"
      and eff: "N = (if flag = 0 then Retention cfg else flag)"
      and N: "1 \<le> N"
      and run: "pruneCmd rm flag cfg sd = (None, sd')"
  shows "(int (length (snapshots_of c sd)) > N \<longrightarrow>
            length (snapshots_of c sd') = nat N
          \<and> set (snapshots_of c sd') = set (take (nat N) (sort_descending (snapshots_of c sd)))
          \<and> (\<forall>a \<in> set (snapshots_of c sd').
               \<forall>b \<in> set (snapshots_of c sd) - set (snapshots_of c sd'). b < a))
       \<and> (int (length (snapshots_of c sd)) \<le> N \<longrightarrow>
            filter (pruned_as c) sd' = filter (pruned_as c) sd)"
proof (intro conjI impI)
  let ?S = "snapshots_of c sd"
  let ?X = "sort_descending ?S"
  let ?k = "nat N"
  assume big: "int (length ?S) > N"
  have dS: "distinct ?S" by (rule distinct_snapshots_of [OF dist])
  then have dX: "distinct ?X" by (simp add: sort_descending_def)
  have sX: "set ?X = set ?S" by (simp add: sort_descending_def)
  have lX: "length ?X = length ?S" by (simp add: sort_descending_def)
  from big have doom: "doomed_of N c sd = set (drop ?k ?X)"
    by (simp add: doomed_of_def)
  have S': "snapshots_of c sd' = filter (\<lambda>n. n \<notin> set (drop ?k ?X)) ?S"
    using snapshots_of_pruned [OF eff N run, of c] doom by simp
  have un: "set (take ?k ?X) \<union> set (drop ?k ?X) = set ?X"
    by (metis append_take_drop_id set_append)
  have dj: "set (take ?k ?X) \<inter> set (drop ?k ?X) = {}"
    using dX by (rule set_take_disj_set_drop_if_distinct) simp
  from S' sX un dj show set_eq: "set (snapshots_of c sd') = set (take ?k ?X)"
    by auto
  have "distinct (snapshots_of c sd')"
    using S' dS by simp
  then have "length (snapshots_of c sd') = card (set (take ?k ?X))"
    using set_eq by (metis distinct_card)
  also have "\<dots> = length (take ?k ?X)"
    using dX by (simp add: distinct_card)
  also have "\<dots> = ?k"
    using big lX N by simp
  finally show "length (snapshots_of c sd') = ?k" .
  from set_eq sX un dj
  have "set ?S - set (snapshots_of c sd') \<subseteq> set (drop ?k ?X)"
    by auto
  with descending_split [OF dS, of ?k] set_eq
  show "\<forall>a \<in> set (snapshots_of c sd'). \<forall>b \<in> set ?S - set (snapshots_of c sd'). b < a"
    by blast
next
  assume "int (length (snapshots_of c sd)) \<le> N"
  then have "doomed_of N c sd = {}"
    by (simp add: doomed_of_def)
  with pruneCmd_ok [OF eff N run, of c] show "filter (pruned_as c) sd' = filter (pruned_as c) sd"
    by simp
qed

theorem prune_keeps_newest_witness:
  "distinct (map fst prune_dir)
   \<and> Retention keep_two_cfg = 2 \<and> Retention log_cfg = 10
   \<and> pruneCmd (\<lambda>n. True) 0 keep_two_cfg prune_dir = (None, prune_dir_after)
   \<and> pruneCmd (\<lambda>n. True) 2 log_cfg prune_dir = (None, prune_dir_after)
   \<and> int (length (snapshots_of ''abc123'' prune_dir)) > 2
   \<and> length (snapshots_of ''abc123'' prune_dir_after) = 2
   \<and> set (snapshots_of ''abc123'' prune_dir_after)
       = {''abc123_20250103T0900_2.tar.gz'', ''abc123_20250102T0900_1.tar.gz''}
   \<and> int (length (snapshots_of ''def456'' prune_dir)) \<le> 2
   \<and> filter (pruned_as ''def456'') prune_dir_after = filter (pruned_as ''def456'') prune_dir"
proof -
  have h1: "distinct (map fst prune_dir)"
    by (simp add: prune_dir_def)
  have r2: "Retention keep_two_cfg = 2" and r10: "Retention log_cfg = 10"
    by (simp_all add: keep_two_cfg_def log_cfg_def)
  have e0: "(2::int) = (if (0::int) = 0 then Retention keep_two_cfg else 0)"
    by (simp add: r2)
  have e2: "(2::int) = (if (2::int) = 0 then Retention log_cfg else 2)"
    by simp
  have h2: "(1::int) \<le> 2"
    by simp
  have h3: "pruneCmd (\<lambda>n. True) 0 keep_two_cfg prune_dir = (None, prune_dir_after)"
    by (simp add: pruneCmd_def os_ReadDir_def prune_dir_def prune_dir_after_def keep_two_cfg_def
        strings_HasSuffix_def sort_descending_def os_Remove_def Let_def)
  have h4: "pruneCmd (\<lambda>n. True) 2 log_cfg prune_dir = (None, prune_dir_after)"
    by (simp add: pruneCmd_def os_ReadDir_def prune_dir_def prune_dir_after_def
        strings_HasSuffix_def sort_descending_def os_Remove_def Let_def)
  have abc: "snapshots_of ''abc123'' prune_dir
               = [''abc123_20250102T0900_1.tar.gz'', ''abc123_20250101T0900_0.tar.gz'',
                  ''abc123_20250103T0900_2.tar.gz'']"
    by (simp add: snapshots_of_def pruned_as_def prune_dir_def strings_HasSuffix_def)
  have def: "snapshots_of ''def456'' prune_dir = [''def456_20250101T0900_0.tar.gz'']"
    by (simp add: snapshots_of_def pruned_as_def prune_dir_def strings_HasSuffix_def)
  have big: "int (length (snapshots_of ''abc123'' prune_dir)) > 2"
    by (simp add: abc)
  have small: "int (length (snapshots_of ''def456'' prune_dir)) \<le> 2"
    by (simp add: def)
  have top2: "set (take (nat 2) (sort_descending (snapshots_of ''abc123'' prune_dir)))
               = {''abc123_20250103T0900_2.tar.gz'', ''abc123_20250102T0900_1.tar.gz''}"
    by (simp add: abc sort_descending_def)
  from prune_keeps_newest [OF h1 e0 h2 h3, of "''abc123''"] big top2
  have kept: "length (snapshots_of ''abc123'' prune_dir_after) = 2"
      "set (snapshots_of ''abc123'' prune_dir_after)
         = {''abc123_20250103T0900_2.tar.gz'', ''abc123_20250102T0900_1.tar.gz''}"
    by simp_all
  from prune_keeps_newest [OF h1 e2 h2 h4, of "''def456''"] small
  have same: "filter (pruned_as ''def456'') prune_dir_after = filter (pruned_as ''def456'') prune_dir"
    by simp
  from h1 r2 r10 h3 h4 big kept small same show ?thesis by blast
qed


end
